theory Spec2Isabelle
  imports Main "HOL-Library.Sublist"
begin

section \<open>Host-language values\<close>

text \<open>
  The source is TypeScript (app/src/lib/git/for-each-ref.ts). A string is a
  \<^typ>\<open>string\<close>; a value that may be \<open>undefined\<close> (an array read past the end) is
  a \<^typ>\<open>string option\<close> with \<open>None\<close> for \<open>undefined\<close>. A thrown exception is the left
  summand of the result.
\<close>

datatype js_error =
    TypeError            \<comment> \<open>a property read on \<open>undefined\<close>\<close>
  | Error string         \<comment> \<open>\<open>new Error(message)\<close>\<close>
  | ExternalFailure string  \<comment> \<open>whatever the request executor itself throws\<close>

text \<open>\<open>s.startsWith(p)\<close>.\<close>

definition startsWith :: "string \<Rightarrow> string \<Rightarrow> bool" where
  "startsWith s p = prefix p s"

text \<open>
  \<open>s.split(sep)\<close> for a separator of one character, scanning left to right:
  \<open>cur\<close> is the segment read so far. The result always has at least one segment
  (the empty string splits into one empty segment).
\<close>

fun split_from :: "char \<Rightarrow> string \<Rightarrow> string \<Rightarrow> string list" where
  "split_from d cur [] = [cur]"
| "split_from d cur (c # cs) =
     (if c = d then cur # split_from d [] cs else split_from d (cur @ [c]) cs)"

definition js_split :: "char \<Rightarrow> string \<Rightarrow> string list" where
  "js_split d s = split_from d [] s"

text \<open>\<open>xs[i]\<close>: \<open>undefined\<close> past the end.\<close>

definition elemAt :: "'a list \<Rightarrow> nat \<Rightarrow> 'a option" where
  "elemAt xs i = (if i < length xs then Some (xs ! i) else None)"

text \<open>A value inside a template literal: \<open>undefined\<close> prints as the word.\<close>

definition interpolate :: "string option \<Rightarrow> string" where
  "interpolate v = (case v of None \<Rightarrow> ''undefined'' | Some s \<Rightarrow> s)"

text \<open>\<open>xs.join(sep)\<close>.\<close>

fun join :: "string \<Rightarrow> string list \<Rightarrow> string" where
  "join sep [] = []"
| "join sep [x] = x"
| "join sep (x # y # ys) = x @ sep @ join sep (y # ys)"

section \<open>The collaborators at the boundary\<close>

text \<open>
  Modelled from the spec: the classes \<open>Repository\<close>, \<open>Branch\<close> and the enum
  \<open>BranchType\<close> (models/repository, models/branch) and the result of the request
  executor (\<open>git\<close> of ./core) are imported by the source and absent from it. They are
  plain data: the fields below are the ones the source reads or passes to the
  constructor, in the constructor's order. \<open>GitError\<close> is dugite's enum, of which the
  source names one member.
\<close>

datatype GitError = NotAGitRepository | OtherGitError nat

datatype BranchType = Local | Remote

record Repository =
  path :: string

record IGitResult =
  stdout :: string
  gitError :: "GitError option"

record 'i BranchTip =
  sha :: string
  author :: 'i

record 'i Branch =
  name :: string
  upstream :: "string option"
  tip :: "'i BranchTip"
  type :: BranchType

text \<open>
  The request executor \<open>git(args, path, name, {expectedErrors})\<close> and
  \<open>CommitIdentity.parseIdentity\<close> are parameters of the model. The executor returns
  a result or throws. The identity parser is applied to a value that may be
  \<open>undefined\<close>; it throws, returns \<open>null\<close> (\<open>Inr None\<close>) or returns an identity.
\<close>

type_synonym executor =
  "string list \<Rightarrow> string \<Rightarrow> string \<Rightarrow> GitError set \<Rightarrow> js_error + IGitResult"

type_synonym 'i parseIdentity = "string option \<Rightarrow> js_error + 'i option"

section \<open>getBranches\<close>

definition delimiter :: string where
  "delimiter = ''1F''"

text \<open>\<open>String.fromCharCode(parseInt(delimiter, 16))\<close>: the one character 0x1F.\<close>

definition delimiterString :: char where
  "delimiterString = CHR 0x1F"

definition NUL :: char where
  "NUL = CHR 0x00"

definition getBranches_format :: string where
  "getBranches_format = join ''%00''
     [''%(refname)'', ''%(refname:short)'', ''%(upstream:short)'', ''%(objectname)'',
      ''%(objectname:short)'', ''%(author)'', ''%(committer)'', ''%(symref)'',
      ''%'' @ delimiter]"

text \<open>
  The rest parameter \<open>prefixes\<close> is \<open>refPrefixes\<close> here; an empty one is replaced by
  the two default namespaces.
\<close>

definition getBranches_args :: "string list \<Rightarrow> string list" where
  "getBranches_args refPrefixes =
     [''for-each-ref'', ''--format='' @ getBranches_format] @
     (if refPrefixes = [] then [''refs/heads'', ''refs/remotes''] else refPrefixes)"

text \<open>\<open>pieces\<close> of the loop body: the fields of the line at index \<open>ix\<close>.\<close>

definition pieces_of :: "nat \<Rightarrow> string \<Rightarrow> string list" where
  "pieces_of ix line = js_split NUL (if ix > 0 then drop 1 line else line)"

text \<open>
  One iteration of the loop of \<open>getBranches\<close> from \<open>pieces\<close> on, in the order the
  source evaluates: both identities, then \<open>ref.startsWith\<close>, then \<open>symref.length\<close>.
  \<open>Inr None\<close> is \<open>continue\<close>, \<open>Inr (Some b)\<close> is the branch pushed. With fewer than
  eight pieces \<open>symref\<close> is \<open>undefined\<close> and reading its length throws. A local
  variable whose name is also a field name is primed.
\<close>

definition getBranches_fields ::
    "'i parseIdentity \<Rightarrow> string list \<Rightarrow> js_error + 'i Branch option" where
  "getBranches_fields parseIdentity pieces =
     (let shortSha = elemAt pieces 4
      in case parseIdentity (elemAt pieces 5) of
           Inl e \<Rightarrow> Inl e
         | Inr None \<Rightarrow>
             Inl (Error (''Couldn't parse author identity for ''
                          @ [CHR 0x27] @ interpolate shortSha @ [CHR 0x27]))
         | Inr (Some author') \<Rightarrow>
            (case parseIdentity (elemAt pieces 6) of
               Inl e \<Rightarrow> Inl e
             | Inr None \<Rightarrow>
                 Inl (Error (''Couldn't parse committer identity for ''
                              @ [CHR 0x27] @ interpolate shortSha @ [CHR 0x27]))
             | Inr (Some committer) \<Rightarrow>
                (case pieces of
                   ref' # name' # upstream' # sha' # _ # _ # _ # symref # _ \<Rightarrow>
                     (let type' = (if startsWith ref' ''refs/head'' then Local else Remote)
                      in if length symref > 0 then Inr None
                         else Inr (Some \<lparr> Branch.name = name',
                                          upstream = (if length upstream' > 0
                                                      then Some upstream' else None),
                                          tip = \<lparr> BranchTip.sha = sha', author = author' \<rparr>,
                                          type = type' \<rparr>))
                 | _ \<Rightarrow> Inl TypeError)))"

definition getBranches_body ::
    "'i parseIdentity \<Rightarrow> nat \<Rightarrow> string \<Rightarrow> js_error + 'i Branch option" where
  "getBranches_body parseIdentity ix line = getBranches_fields parseIdentity (pieces_of ix line)"

text \<open>The loop \<open>for (const [ix, line] of lines.entries())\<close>.\<close>

fun getBranches_loop ::
    "'i parseIdentity \<Rightarrow> nat \<Rightarrow> string list \<Rightarrow> 'i Branch list \<Rightarrow> js_error + 'i Branch list" where
  "getBranches_loop parseIdentity ix [] branches = Inr branches"
| "getBranches_loop parseIdentity ix (line # rest) branches =
     (case getBranches_body parseIdentity ix line of
        Inl e \<Rightarrow> Inl e
      | Inr None \<Rightarrow> getBranches_loop parseIdentity (ix + 1) rest branches
      | Inr (Some b) \<Rightarrow> getBranches_loop parseIdentity (ix + 1) rest (branches @ [b]))"

text \<open>The awaited request, and \<open>lines\<close> after \<open>splice(-1, 1)\<close>.\<close>

definition getBranches_request ::
    "executor \<Rightarrow> Repository \<Rightarrow> string list \<Rightarrow> js_error + IGitResult" where
  "getBranches_request git repository refPrefixes =
     git (getBranches_args refPrefixes) (path repository) ''getBranches'' {NotAGitRepository}"

definition getBranches_lines :: "IGitResult \<Rightarrow> string list" where
  "getBranches_lines result = butlast (js_split delimiterString (stdout result))"

definition getBranches ::
    "'i parseIdentity \<Rightarrow> executor \<Rightarrow> Repository \<Rightarrow> string list \<Rightarrow> js_error + 'i Branch list" where
  "getBranches parseIdentity git repository refPrefixes =
     (case getBranches_request git repository refPrefixes of
        Inl e \<Rightarrow> Inl e
      | Inr result \<Rightarrow>
          if gitError result = Some NotAGitRepository then Inr []
          else
            let lines = getBranches_lines result
            in if length lines = 0 then Inr []
               else getBranches_loop parseIdentity 0 lines [])"

section \<open>getBranchesDifferingFromUpstream\<close>

definition differing_format :: string where
  "differing_format = join ''%00''
     [''%(refname)'', ''%(refname:short)'', ''%(objectname)'', ''%(upstream)'',
      ''%(symref)'', ''%(HEAD)'']"

definition differing_args :: "string list" where
  "differing_args =
     [''for-each-ref'', ''--format='' @ differing_format] @ [''refs/heads'', ''refs/remotes'']"

definition LF :: char where
  "LF = CHR 0x0A"

text \<open>An element of \<open>localBranches\<close>: \<open>{ name, ref, sha, upstream }\<close>.\<close>

record localBranch =
  name :: string
  ref :: string
  sha :: string
  upstream :: string

text \<open>
  One iteration of the first loop, on the pair of \<open>localBranches\<close> and
  \<open>remoteBranchShas\<close>. The first expression evaluated is \<open>symref.length\<close>, which
  throws when the line has fewer than five pieces; \<open>head\<close> is \<open>undefined\<close> when
  it has exactly five.
\<close>

definition collect_body ::
    "string \<Rightarrow> localBranch list \<times> (string \<rightharpoonup> string) \<Rightarrow>
     js_error + localBranch list \<times> (string \<rightharpoonup> string)" where
  "collect_body line st =
     (case st of (localBranches, remoteBranchShas) \<Rightarrow>
      (case js_split NUL line of
         ref' # name' # sha' # upstream' # symref # rest \<Rightarrow>
           (let head = elemAt rest 0
            in if length symref > 0 \<or> head = Some ''*'' then Inr st
               else if startsWith ref' ''refs/head'' then
                 (if length upstream' = 0 then Inr st
                  else Inr (localBranches @
                              [\<lparr> localBranch.name = name', ref = ref', sha = sha',
                                 upstream = upstream' \<rparr>],
                            remoteBranchShas))
               else Inr (localBranches, remoteBranchShas(ref' \<mapsto> sha')))
       | _ \<Rightarrow> Inl TypeError))"

fun collect_loop ::
    "string list \<Rightarrow> localBranch list \<times> (string \<rightharpoonup> string) \<Rightarrow>
     js_error + localBranch list \<times> (string \<rightharpoonup> string)" where
  "collect_loop [] st = Inr st"
| "collect_loop (line # rest) st =
     (case collect_body line st of
        Inl e \<Rightarrow> Inl e
      | Inr st' \<Rightarrow> collect_loop rest st')"

text \<open>The second loop, on \<open>eligibleBranchNames\<close>.\<close>

fun compare_loop ::
    "localBranch list \<Rightarrow> (string \<rightharpoonup> string) \<Rightarrow> string set \<Rightarrow> string set" where
  "compare_loop [] remoteBranchShas eligibleBranchNames = eligibleBranchNames"
| "compare_loop (branch # rest) remoteBranchShas eligibleBranchNames =
     (let remoteSha = remoteBranchShas (localBranch.upstream branch)
      in compare_loop rest remoteBranchShas
           (if remoteSha \<noteq> None \<and> remoteSha \<noteq> Some (localBranch.sha branch)
            then insert (localBranch.name branch) eligibleBranchNames
            else eligibleBranchNames))"

text \<open>
  The names collected by the two loops for a response, or the exception of the
  first loop.
\<close>

definition eligibleBranchNames_of :: "string list \<Rightarrow> js_error + string set" where
  "eligibleBranchNames_of lines =
     (case collect_loop lines ([], Map.empty) of
        Inl e \<Rightarrow> Inl e
      | Inr (localBranches, remoteBranchShas) \<Rightarrow>
          Inr (compare_loop localBranches remoteBranchShas {}))"

definition differing_request :: "executor \<Rightarrow> Repository \<Rightarrow> js_error + IGitResult" where
  "differing_request git repository =
     git differing_args (path repository) ''getBranchesDifferingFromUpstream''
       {NotAGitRepository}"

definition differing_lines :: "IGitResult \<Rightarrow> string list" where
  "differing_lines result = butlast (js_split LF (stdout result))"

definition getBranchesDifferingFromUpstream ::
    "executor \<Rightarrow> Repository \<Rightarrow> ('i, 'm) Branch_scheme list \<Rightarrow>
     js_error + ('i, 'm) Branch_scheme list" where
  "getBranchesDifferingFromUpstream git repository allBranches =
     (case differing_request git repository of
        Inl e \<Rightarrow> Inl e
      | Inr result \<Rightarrow>
          if gitError result = Some NotAGitRepository then Inr []
          else
            let lines = differing_lines result
            in if length lines = 0 then Inr []
               else
                 (case eligibleBranchNames_of lines of
                    Inl e \<Rightarrow> Inl e
                  | Inr eligibleBranchNames \<Rightarrow>
                      if eligibleBranchNames = {} then Inr []
                      else Inr (filter (\<lambda>branch. Branch.type branch = Local \<and>
                                           Branch.name branch \<in> eligibleBranchNames)
                                  allBranches)))"

text \<open>
  The content of \<open>eligibleBranchNames\<close> when \<open>getBranchesDifferingFromUpstream\<close>
  returns: empty where the function returns before the loops, or throws.
\<close>

definition divergentNames :: "executor \<Rightarrow> Repository \<Rightarrow> string set" where
  "divergentNames git repository =
     (case differing_request git repository of
        Inl e \<Rightarrow> {}
      | Inr result \<Rightarrow>
          if gitError result = Some NotAGitRepository then {}
          else (case eligibleBranchNames_of (differing_lines result) of
                  Inl e \<Rightarrow> {}
                | Inr eligibleBranchNames \<Rightarrow> eligibleBranchNames))"

section \<open>Responses and stand-ins for concrete runs\<close>

text \<open>
  What \<open>git for-each-ref\<close> writes for one ref under each of the two formats: the
  values in the format's order with the character of \<open>%00\<close> between them, the
  sentinel of \<open>%1F\<close> as the last item of the first format, and the newline that ends
  every ref's output.
\<close>

definition written_record :: "string list \<Rightarrow> string" where
  "written_record vals = join [NUL] (vals @ [[delimiterString]]) @ [LF]"

definition written_line :: "string list \<Rightarrow> string" where
  "written_line vals = join [NUL] vals @ [LF]"

text \<open>An executor that answers every request with the same result.\<close>

definition respond :: "IGitResult \<Rightarrow> executor" where
  "respond result = (\<lambda>args dir opname expectedErrors. Inr result)"

text \<open>
  A stand-in for \<open>CommitIdentity.parseIdentity\<close> in concrete runs: it throws on
  \<open>undefined\<close>, returns \<open>null\<close> on the empty string and the text itself otherwise.
\<close>

definition stubIdentity :: "string parseIdentity" where
  "stubIdentity v =
     (case v of None \<Rightarrow> Inl TypeError
      | Some s \<Rightarrow> if s = [] then Inr None else Inr (Some s))"

text \<open>
  Concrete responses, lines and branches for the runs below. Identity fields are
  short words: the stand-in parser only asks that they be non-empty.
\<close>

definition sample_listing :: IGitResult where
  "sample_listing =
     \<lparr>stdout =
        written_record [''refs/heads/main'', ''main'', ''origin/main'', ''a1b2c3'', ''a1b'',
                        ''Ann'', ''Bob'', ''''] @
        written_record [''refs/remotes/origin/HEAD'', ''origin/HEAD'', '''', ''d4e5f6'', ''d4e'',
                        ''Ann'', ''Bob'', ''refs/remotes/origin/main''],
      gitError = None\<rparr>"

definition sample_unparsed :: IGitResult where
  "sample_unparsed =
     \<lparr>stdout =
        written_record [''refs/heads/main'', ''main'', ''origin/main'', ''a1b2c3'', ''a1b'',
                        ''Ann'', ''Bob'', ''''] @
        written_record [''refs/remotes/origin/HEAD'', ''origin/HEAD'', '''', ''d4e5f6'', ''d4e'',
                        '''', ''Bob'', ''refs/remotes/origin/main''],
      gitError = None\<rparr>"

definition sample_terminated :: string where
  "sample_terminated =
     join [NUL] [''refs/heads/main'', ''main'', ''origin/main'', ''a1b2c3'', ''a1b'',
                 ''Ann'', ''Bob'', '''', [delimiterString]]"

definition sample_unterminated :: string where
  "sample_unterminated =
     LF # join [NUL] [''refs/heads/dev'', ''dev'', '''', ''d4e5f6'', ''d4e'',
                      ''Ann'', ''Bob'', '''', '''']"

definition sample_feat_line :: string where
  "sample_feat_line =
     written_line [''refs/heads/feat'', ''feat'', ''a1'', ''refs/remotes/origin/feat'', '''', '' '']"

definition sample_remote_unterminated :: string where
  "sample_remote_unterminated =
     join [NUL] [''refs/remotes/origin/feat'', ''origin/feat'', ''b2'', '''', '''', '' '']"

definition sample_feat :: "string Branch" where
  "sample_feat =
     \<lparr>Branch.name = ''feat'', upstream = Some ''origin/feat'',
      tip = \<lparr>BranchTip.sha = ''a1'', author = ''Ann''\<rparr>, type = Local\<rparr>"

definition sample_differing :: IGitResult where
  "sample_differing =
     \<lparr>stdout =
        written_line [''refs/heads/feat'', ''feat'', ''a1'', ''refs/remotes/origin/feat'', '''', '' ''] @
        written_line [''refs/heads/gone'', ''gone'', ''c3'', ''refs/remotes/origin/gone'', '''', '' ''] @
        written_line [''refs/heads/same'', ''same'', ''d4'', ''refs/remotes/origin/same'', '''', '' ''] @
        written_line [''refs/remotes/origin/feat'', ''origin/feat'', ''b2'', '''', '''', '' ''] @
        written_line [''refs/remotes/origin/same'', ''origin/same'', ''d4'', '''', '''', '' ''],
      gitError = None\<rparr>"

definition sample_known :: "string Branch list" where
  "sample_known =
     [sample_feat,
      \<lparr>Branch.name = ''gone'', upstream = Some ''origin/gone'',
       tip = \<lparr>BranchTip.sha = ''c3'', author = ''Ann''\<rparr>, type = Local\<rparr>,
      \<lparr>Branch.name = ''feat'', upstream = None,
       tip = \<lparr>BranchTip.sha = ''b2'', author = ''Bob''\<rparr>, type = Remote\<rparr>]"

definition sample_current :: string where
  "sample_current =
     join [NUL] [''refs/heads/feat'', ''feat'', ''a1'', ''refs/remotes/origin/feat'', '''', ''*'']"

definition sample_no_upstream :: string where
  "sample_no_upstream = join [NUL] [''refs/heads/feat'', ''feat'', ''a1'', '''', '''', '' '']"

definition sample_remote_line :: string where
  "sample_remote_line =
     join [NUL] [''refs/remotes/origin/feat'', ''origin/feat'', ''b2'', '''', '''', '' '']"

definition sample_other_namespace :: IGitResult where
  "sample_other_namespace =
     \<lparr>stdout =
        written_record [''refs/headless/tmp'', ''headless/tmp'', '''', ''e5f6a7'', ''e5f'',
                        ''Ann'', ''Bob'', ''''],
      gitError = None\<rparr>"

section \<open>Splitting\<close>

lemma split_from_append:
  "split_from d cur (a @ d # b) = split_from d cur a @ split_from d [] b"
  by (induction a arbitrary: cur) auto

lemma split_from_nosep: "d \<notin> set r \<Longrightarrow> split_from d cur r = [cur @ r]"
  by (induction r arbitrary: cur) auto

lemma js_split_append: "js_split d (a @ d # b) = js_split d a @ js_split d b"
  by (simp add: js_split_def split_from_append)

lemma js_split_nosep: "d \<notin> set r \<Longrightarrow> js_split d r = [r]"
  by (simp add: js_split_def split_from_nosep)

lemma split_from_ne: "split_from d cur s \<noteq> []"
  by (induction s arbitrary: cur) auto

lemma js_split_ne: "js_split d s \<noteq> []"
  by (simp add: js_split_def split_from_ne)

lemma length_split_from: "length (split_from d cur s) = Suc (count_list s d)"
  by (induction s arbitrary: cur) auto

lemma length_js_split: "length (js_split d s) = Suc (count_list s d)"
  by (simp add: js_split_def length_split_from)

lemma js_split_terminated:
  "\<forall>f \<in> set fs. d \<notin> set f \<Longrightarrow> js_split d (concat (map (\<lambda>f. f @ [d]) fs)) = fs @ [[]]"
proof (induction fs)
  case Nil
  show ?case by (simp add: js_split_def)
next
  case (Cons f fs)
  have "js_split d (f @ d # concat (map (\<lambda>f. f @ [d]) fs))
        = js_split d f @ js_split d (concat (map (\<lambda>f. f @ [d]) fs))"
    by (rule js_split_append)
  with Cons show ?case by (simp add: js_split_nosep)
qed

section \<open>The not-a-repository condition\<close>

text \<open>
  C5. Whatever the repository handle, the prefixes and the known branches: when the
  request of either operation comes back with the error kind
  \<open>NotAGitRepository\<close>, that operation returns the empty list and throws nothing.
\<close>

theorem not_a_repository_yields_empty:
  "(getBranches_request git repository refPrefixes = Inr result \<and>
    gitError result = Some NotAGitRepository
      \<longrightarrow> getBranches parseIdentity git repository refPrefixes = Inr [])
   \<and>
   (differing_request git repository = Inr result' \<and>
    gitError result' = Some NotAGitRepository
      \<longrightarrow> getBranchesDifferingFromUpstream git repository allBranches = Inr [])"
  by (simp add: getBranches_def getBranchesDifferingFromUpstream_def)

theorem not_a_repository_yields_empty_witness:
  "getBranches stubIdentity
     (respond \<lparr>stdout = ''fatal: not a git repository'', gitError = Some NotAGitRepository\<rparr>)
     \<lparr>path = ''/tmp/gone''\<rparr> [] = Inr []
   \<and>
   getBranchesDifferingFromUpstream
     (respond \<lparr>stdout = ''fatal: not a git repository'', gitError = Some NotAGitRepository\<rparr>)
     \<lparr>path = ''/tmp/gone''\<rparr>
     [\<lparr>Branch.name = ''main'', upstream = None,
       tip = \<lparr>BranchTip.sha = ''a1'', author = ''A''\<rparr>, type = Local\<rparr>] = Inr []"
  using not_a_repository_yields_empty
    [of "respond \<lparr>stdout = ''fatal: not a git repository'', gitError = Some NotAGitRepository\<rparr>"
        "\<lparr>path = ''/tmp/gone''\<rparr>" "[]"
        "\<lparr>stdout = ''fatal: not a git repository'', gitError = Some NotAGitRepository\<rparr>"
        stubIdentity
        "\<lparr>stdout = ''fatal: not a git repository'', gitError = Some NotAGitRepository\<rparr>"
        "[\<lparr>Branch.name = ''main'', upstream = None,
          tip = \<lparr>BranchTip.sha = ''a1'', author = ''A''\<rparr>, type = Local\<rparr>]"]
  by (simp add: respond_def getBranches_request_def differing_request_def)

section \<open>The loop of getBranches\<close>

lemma getBranches_loop_first_throw:
  "k < length lines \<Longrightarrow>
   \<forall>j<k. \<exists>r. getBranches_body parseIdentity (ix + j) (lines ! j) = Inr r \<Longrightarrow>
   getBranches_body parseIdentity (ix + k) (lines ! k) = Inl e \<Longrightarrow>
   getBranches_loop parseIdentity ix lines acc = Inl e"
proof (induction lines arbitrary: ix k acc)
  case Nil
  then show ?case by simp
next
  case (Cons line rest)
  show ?case
  proof (cases k)
    case 0
    with Cons.prems show ?thesis by simp
  next
    case (Suc k')
    from Cons.prems(2) Suc obtain r where r: "getBranches_body parseIdentity ix line = Inr r"
      by fastforce
    have a: "k' < length rest" using Cons.prems(1) Suc by simp
    have b: "\<forall>j<k'. \<exists>r. getBranches_body parseIdentity (Suc ix + j) (rest ! j) = Inr r"
    proof (intro allI impI)
      fix j assume "j < k'"
      then have "Suc j < k" using Suc by simp
      with Cons.prems(2) show "\<exists>r. getBranches_body parseIdentity (Suc ix + j) (rest ! j) = Inr r"
        by fastforce
    qed
    have c: "getBranches_body parseIdentity (Suc ix + k') (rest ! k') = Inl e"
      using Cons.prems(3) Suc by simp
    have "getBranches_loop parseIdentity (Suc ix) rest acc' = Inl e" for acc'
      using Cons.IH [OF a b c] .
    with r show ?thesis by (cases r) simp_all
  qed
qed

lemma getBranches_loop_some_throw:
  "k < length lines \<Longrightarrow>
   getBranches_body parseIdentity (ix + k) (lines ! k) = Inl e \<Longrightarrow>
   \<exists>e'. getBranches_loop parseIdentity ix lines acc = Inl e'"
proof (induction lines arbitrary: ix k acc)
  case Nil
  then show ?case by simp
next
  case (Cons line rest)
  show ?case
  proof (cases k)
    case 0
    with Cons.prems show ?thesis by simp
  next
    case (Suc k')
    have "\<exists>e'. getBranches_loop parseIdentity (Suc ix) rest acc' = Inl e'" for acc'
      using Cons.IH [of k' "Suc ix" acc'] Cons.prems Suc by simp
    then show ?thesis
      by (auto split: sum.splits option.splits)
  qed
qed

lemma getBranches_loop_count:
  "\<forall>k<length lines. \<exists>b. getBranches_body parseIdentity (ix + k) (lines ! k)
        = Inr (if P (ix + k) (lines ! k) then None else Some (b::'i Branch)) \<Longrightarrow>
   \<exists>bs. getBranches_loop parseIdentity ix lines acc = Inr bs \<and>
        length bs + length (filter (\<lambda>k. P (ix + k) (lines ! k)) [0..<length lines])
          = length acc + length lines"
proof (induction lines arbitrary: ix acc)
  case Nil
  then show ?case by simp
next
  case (Cons line rest)
  from Cons.prems obtain b where
    hd: "getBranches_body parseIdentity ix line = Inr (if P ix line then None else Some b)"
    by fastforce
  have tl: "\<forall>k<length rest. \<exists>b. getBranches_body parseIdentity (Suc ix + k) (rest ! k)
        = Inr (if P (Suc ix + k) (rest ! k) then None else Some b)"
  proof (intro allI impI)
    fix k assume "k < length rest"
    then have "Suc k < length (line # rest)" by simp
    with Cons.prems show "\<exists>b. getBranches_body parseIdentity (Suc ix + k) (rest ! k)
        = Inr (if P (Suc ix + k) (rest ! k) then None else Some b)"
      by fastforce
  qed
  have shift: "filter (\<lambda>k. P (ix + k) ((line # rest) ! k)) [0..<length (line # rest)]
        = (if P ix line then [0] else []) @
          map Suc (filter (\<lambda>k. P (Suc ix + k) (rest ! k)) [0..<length rest])"
  proof -
    have "[0..<length (line # rest)] = 0 # map Suc [0..<length rest]"
      by (simp add: upt_conv_Cons map_Suc_upt del: upt_Suc)
    then show ?thesis by (simp add: filter_map comp_def)
  qed
  from Cons.IH [OF tl] obtain bs where
    bs: "getBranches_loop parseIdentity (Suc ix) rest (if P ix line then acc else acc @ [b]) = Inr bs"
        "length bs + length (filter (\<lambda>k. P (Suc ix + k) (rest ! k)) [0..<length rest])
          = length (if P ix line then acc else acc @ [b]) + length rest"
    by blast
  show ?case
    using hd bs unfolding shift by (cases "P ix line") simp_all
qed

section \<open>Counting the listed branches\<close>

lemma getBranches_of_lines:
  "getBranches_request git repository refPrefixes = Inr result \<Longrightarrow>
   gitError result \<noteq> Some NotAGitRepository \<Longrightarrow>
   getBranches parseIdentity git repository refPrefixes
     = getBranches_loop parseIdentity 0 (getBranches_lines result) []"
  by (cases "getBranches_lines result") (simp_all add: getBranches_def Let_def)

lemma eight_pieces:
  "8 \<le> length ps \<Longrightarrow> \<exists>p0 p1 p2 p3 p4 p5 p6 p7 rest. ps = p0 # p1 # p2 # p3 # p4 # p5 # p6 # p7 # rest"
  by (auto simp: Suc_le_length_iff eval_nat_numeral)

lemma getBranches_fields_wellformed:
  assumes "8 \<le> length ps"
      and "parseIdentity (elemAt ps 5) = Inr (Some a)"
      and "parseIdentity (elemAt ps 6) = Inr (Some c)"
  shows "\<exists>b. getBranches_fields parseIdentity ps = Inr (if ps ! 7 \<noteq> [] then None else Some b)"
proof -
  from eight_pieces [OF assms(1)] obtain p0 p1 p2 p3 p4 p5 p6 p7 rest
    where ps: "ps = p0 # p1 # p2 # p3 # p4 # p5 # p6 # p7 # rest" by blast
  have "getBranches_fields parseIdentity ps =
        (if length p7 > 0 then Inr None
         else Inr (Some \<lparr> Branch.name = p1,
                          upstream = (if length p2 > 0 then Some p2 else None),
                          tip = \<lparr> BranchTip.sha = p3, author = a \<rparr>,
                          type = (if startsWith p0 ''refs/head'' then Local else Remote) \<rparr>))"
    using assms(2,3) unfolding getBranches_fields_def ps by (simp add: Let_def)
  then show ?thesis by (simp add: ps)
qed

text \<open>
  C8. When every record of the response has its eight fields and both of its identity
  fields parse, the call returns a list, and its length is the number of records
  less the number of records whose symbolic-ref field is not empty.
\<close>

theorem listed_count:
  assumes "getBranches_request git repository refPrefixes = Inr result"
      and "gitError result \<noteq> Some NotAGitRepository"
      and "lines = getBranches_lines result"
      and "\<forall>i<length lines.
             8 \<le> length (pieces_of i (lines ! i)) \<and>
             (\<exists>a. parseIdentity (elemAt (pieces_of i (lines ! i)) 5) = Inr (Some a)) \<and>
             (\<exists>c. parseIdentity (elemAt (pieces_of i (lines ! i)) 6) = Inr (Some c))"
  shows "\<exists>bs. getBranches parseIdentity git repository refPrefixes = Inr bs \<and>
              length bs = length lines -
                length (filter (\<lambda>i. pieces_of i (lines ! i) ! 7 \<noteq> []) [0..<length lines])"
proof -
  have each: "\<forall>k<length lines. \<exists>b. getBranches_body parseIdentity (0 + k) (lines ! k)
        = Inr (if pieces_of (0 + k) (lines ! k) ! 7 \<noteq> [] then None else Some b)"
  proof (intro allI impI)
    fix k assume "k < length lines"
    with assms(4) obtain a c where
      "8 \<le> length (pieces_of k (lines ! k))"
      "parseIdentity (elemAt (pieces_of k (lines ! k)) 5) = Inr (Some a)"
      "parseIdentity (elemAt (pieces_of k (lines ! k)) 6) = Inr (Some c)"
      by blast
    from getBranches_fields_wellformed [OF this]
    show "\<exists>b. getBranches_body parseIdentity (0 + k) (lines ! k)
        = Inr (if pieces_of (0 + k) (lines ! k) ! 7 \<noteq> [] then None else Some b)"
      by (simp add: getBranches_body_def)
  qed
  from getBranches_loop_count
         [where P = "\<lambda>i l. pieces_of i l ! 7 \<noteq> []" and ix = 0 and acc = "[]", OF each]
  obtain bs where
    bs: "getBranches_loop parseIdentity 0 lines [] = Inr bs"
        "length bs + length (filter (\<lambda>k. pieces_of k (lines ! k) ! 7 \<noteq> []) [0..<length lines])
           = length lines"
    by auto
  have "getBranches parseIdentity git repository refPrefixes = Inr bs"
    using assms(3) bs(1) by (simp add: getBranches_of_lines [OF assms(1,2)])
  with bs(2) show ?thesis by simp
qed

lemma sample_listing_lines:
  "getBranches_lines sample_listing =
     [join [NUL] [''refs/heads/main'', ''main'', ''origin/main'', ''a1b2c3'', ''a1b'',
                        ''Ann'', ''Bob'', '''', ''''],
      LF # join [NUL] [''refs/remotes/origin/HEAD'', ''origin/HEAD'', '''', ''d4e5f6'', ''d4e'',
                        ''Ann'', ''Bob'', ''refs/remotes/origin/main'', '''']]"
  by (simp add: getBranches_lines_def sample_listing_def written_record_def js_split_def
        NUL_def LF_def delimiterString_def)

lemma sample_listing_pieces:
  "pieces_of 0 (getBranches_lines sample_listing ! 0) =
     [''refs/heads/main'', ''main'', ''origin/main'', ''a1b2c3'', ''a1b'', ''Ann'', ''Bob'', '''', '''']"
  "pieces_of (Suc 0) (getBranches_lines sample_listing ! Suc 0) =
     [''refs/remotes/origin/HEAD'', ''origin/HEAD'', '''', ''d4e5f6'', ''d4e'',
                        ''Ann'', ''Bob'', ''refs/remotes/origin/main'', '''']"
  by (simp_all add: sample_listing_lines pieces_of_def js_split_def NUL_def LF_def)

theorem listed_count_witness:
  "\<exists>bs. getBranches stubIdentity (respond sample_listing) \<lparr>path = ''/repo''\<rparr> [] = Inr bs \<and>
        length (getBranches_lines sample_listing) = 2 \<and> length bs = 1"
proof -
  have h1: "getBranches_request (respond sample_listing) \<lparr>path = ''/repo''\<rparr> [] = Inr sample_listing"
    by (simp add: getBranches_request_def respond_def)
  have h2: "gitError sample_listing \<noteq> Some NotAGitRepository"
    by (simp add: sample_listing_def)
  have len: "length (getBranches_lines sample_listing) = 2"
    by (simp add: sample_listing_lines)
  have h4: "\<forall>i<length (getBranches_lines sample_listing).
             8 \<le> length (pieces_of i (getBranches_lines sample_listing ! i)) \<and>
             (\<exists>a. stubIdentity (elemAt (pieces_of i (getBranches_lines sample_listing ! i)) 5) = Inr (Some a)) \<and>
             (\<exists>c. stubIdentity (elemAt (pieces_of i (getBranches_lines sample_listing ! i)) 6) = Inr (Some c))"
    unfolding len
    by (simp add: numeral_2_eq_2 All_less_Suc sample_listing_pieces elemAt_def stubIdentity_def)
  show ?thesis
    using listed_count [OF h1 h2 refl h4] unfolding len
    by (simp add: numeral_2_eq_2 sample_listing_pieces)
qed

section \<open>Identity fields that do not parse\<close>

lemma getBranches_first_throw:
  assumes "getBranches_request git repository refPrefixes = Inr result"
      and "gitError result \<noteq> Some NotAGitRepository"
      and "i < length (getBranches_lines result)"
      and "\<forall>j<i. \<exists>r. getBranches_body parseIdentity j (getBranches_lines result ! j) = Inr r"
      and "getBranches_body parseIdentity i (getBranches_lines result ! i) = Inl e"
  shows "getBranches parseIdentity git repository refPrefixes = Inl e"
  using getBranches_loop_first_throw [of i "getBranches_lines result" parseIdentity 0 e "[]"]
        assms(3,4,5)
  by (simp add: getBranches_of_lines [OF assms(1,2)])

lemma getBranches_some_throw:
  assumes "getBranches_request git repository refPrefixes = Inr result"
      and "gitError result \<noteq> Some NotAGitRepository"
      and "i < length (getBranches_lines result)"
      and "getBranches_body parseIdentity i (getBranches_lines result ! i) = Inl e"
  shows "\<exists>e'. getBranches parseIdentity git repository refPrefixes = Inl e'"
  using getBranches_loop_some_throw [of i "getBranches_lines result" parseIdentity 0 e "[]"]
        assms(3,4)
  by (simp add: getBranches_of_lines [OF assms(1,2)])

lemma getBranches_fields_unparsed:
  assumes "parseIdentity (elemAt pieces 5) = Inr None \<or>
           (\<exists>a. parseIdentity (elemAt pieces 5) = Inr (Some a)) \<and>
           parseIdentity (elemAt pieces 6) = Inr None"
  shows "\<exists>kind \<in> {''author'', ''committer''}.
           getBranches_fields parseIdentity pieces =
             Inl (Error (''Couldn't parse '' @ kind @ '' identity for '' @
                         [CHR 0x27] @ interpolate (elemAt pieces 4) @ [CHR 0x27]))"
  using assms by (auto simp: getBranches_fields_def Let_def)

text \<open>
  C2. When the author field or the committer field of a record of the response does
  not parse, the call throws and returns no list. The record at which it throws is
  the first one that raises anything; when that is the record whose identity does not
  parse, the exception is the \<open>Error\<close> whose message ends with that record's short
  object id between quotes.
\<close>

theorem identity_failure_aborts:
  assumes "getBranches_request git repository refPrefixes = Inr result"
      and "gitError result \<noteq> Some NotAGitRepository"
      and "lines = getBranches_lines result"
      and "i < length lines"
      and "pieces = pieces_of i (lines ! i)"
      and "parseIdentity (elemAt pieces 5) = Inr None \<or>
           (\<exists>a. parseIdentity (elemAt pieces 5) = Inr (Some a)) \<and>
           parseIdentity (elemAt pieces 6) = Inr None"
  shows "(\<exists>e. getBranches parseIdentity git repository refPrefixes = Inl e) \<and>
         ((\<forall>j<i. \<exists>r. getBranches_body parseIdentity j (lines ! j) = Inr r) \<longrightarrow>
          (\<exists>kind \<in> {''author'', ''committer''}.
             getBranches parseIdentity git repository refPrefixes =
               Inl (Error (''Couldn't parse '' @ kind @ '' identity for '' @
                           [CHR 0x27] @ interpolate (elemAt pieces 4) @ [CHR 0x27]))))"
proof -
  from getBranches_fields_unparsed [OF assms(6)] obtain kind where
    kind: "kind \<in> {''author'', ''committer''}"
          "getBranches_body parseIdentity i (lines ! i) =
             Inl (Error (''Couldn't parse '' @ kind @ '' identity for '' @
                         [CHR 0x27] @ interpolate (elemAt pieces 4) @ [CHR 0x27]))"
    unfolding getBranches_body_def assms(5) by blast
  have some: "\<exists>e. getBranches parseIdentity git repository refPrefixes = Inl e"
    using getBranches_some_throw [OF assms(1,2)] assms(3,4) kind(2) by blast
  have first: "getBranches parseIdentity git repository refPrefixes =
               Inl (Error (''Couldn't parse '' @ kind @ '' identity for '' @
                           [CHR 0x27] @ interpolate (elemAt pieces 4) @ [CHR 0x27]))"
    if "\<forall>j<i. \<exists>r. getBranches_body parseIdentity j (lines ! j) = Inr r"
    using getBranches_first_throw [OF assms(1,2)] assms(3,4) kind(2) that by blast
  from some first kind(1) show ?thesis by blast
qed

lemma sample_unparsed_lines:
  "getBranches_lines sample_unparsed =
     [join [NUL] [''refs/heads/main'', ''main'', ''origin/main'', ''a1b2c3'', ''a1b'',
                        ''Ann'', ''Bob'', '''', ''''],
      LF # join [NUL] [''refs/remotes/origin/HEAD'', ''origin/HEAD'', '''', ''d4e5f6'', ''d4e'',
                        '''', ''Bob'', ''refs/remotes/origin/main'', '''']]"
  by (simp add: getBranches_lines_def sample_unparsed_def written_record_def js_split_def
        NUL_def LF_def delimiterString_def)

lemma sample_unparsed_pieces:
  "pieces_of 0 (getBranches_lines sample_unparsed ! 0) =
     [''refs/heads/main'', ''main'', ''origin/main'', ''a1b2c3'', ''a1b'', ''Ann'', ''Bob'', '''', '''']"
  "pieces_of (Suc 0) (getBranches_lines sample_unparsed ! Suc 0) =
     [''refs/remotes/origin/HEAD'', ''origin/HEAD'', '''', ''d4e5f6'', ''d4e'',
                        '''', ''Bob'', ''refs/remotes/origin/main'', '''']"
  by (simp_all add: sample_unparsed_lines pieces_of_def js_split_def NUL_def LF_def)

lemma sample_unparsed_request:
  "getBranches_request (respond sample_unparsed) \<lparr>path = ''/repo''\<rparr> [] = Inr sample_unparsed"
  "gitError sample_unparsed \<noteq> Some NotAGitRepository"
  by (simp_all add: getBranches_request_def respond_def sample_unparsed_def)

lemma sample_unparsed_first:
  "\<exists>r. getBranches_body stubIdentity 0 (getBranches_lines sample_unparsed ! 0) = Inr r"
  by (simp add: getBranches_body_def sample_unparsed_pieces getBranches_fields_def
        elemAt_def stubIdentity_def Let_def)

theorem identity_failure_aborts_witness:
  "(\<exists>e. getBranches stubIdentity (respond sample_unparsed) \<lparr>path = ''/repo''\<rparr> [] = Inl e) \<and>
   (\<exists>kind \<in> {''author'', ''committer''}.
      getBranches stubIdentity (respond sample_unparsed) \<lparr>path = ''/repo''\<rparr> [] =
        Inl (Error (''Couldn't parse '' @ kind @ '' identity for '' @
                    [CHR 0x27] @ ''d4e'' @ [CHR 0x27])))"
proof -
  have hi: "Suc 0 < length (getBranches_lines sample_unparsed)"
    by (simp add: sample_unparsed_lines)
  have h6: "stubIdentity (elemAt (pieces_of (Suc 0) (getBranches_lines sample_unparsed ! Suc 0)) 5)
              = Inr None \<or>
            (\<exists>a. stubIdentity (elemAt (pieces_of (Suc 0) (getBranches_lines sample_unparsed ! Suc 0)) 5)
              = Inr (Some a)) \<and>
            stubIdentity (elemAt (pieces_of (Suc 0) (getBranches_lines sample_unparsed ! Suc 0)) 6)
              = Inr None"
    by (simp add: sample_unparsed_pieces elemAt_def stubIdentity_def)
  have earlier: "\<forall>j<Suc 0. \<exists>r. getBranches_body stubIdentity j
                    (getBranches_lines sample_unparsed ! j) = Inr r"
    using sample_unparsed_first by simp
  have short: "interpolate (elemAt (pieces_of (Suc 0) (getBranches_lines sample_unparsed ! Suc 0)) 4)
                 = ''d4e''"
    by (simp add: sample_unparsed_pieces elemAt_def interpolate_def)
  show ?thesis
    using identity_failure_aborts [OF sample_unparsed_request refl hi refl h6] earlier
    unfolding short by blast
qed

text \<open>
  C9. The body parses both identity fields before it reads the symbolic-ref field.
  For a record with a non-empty symbolic-ref field whose author or committer field
  does not parse, reached with no exception before it, the call throws the parse
  \<open>Error\<close>; with a parser that accepts both fields the same record is only skipped.
\<close>

theorem identities_parsed_before_symref:
  assumes "getBranches_request git repository refPrefixes = Inr result"
      and "gitError result \<noteq> Some NotAGitRepository"
      and "lines = getBranches_lines result"
      and "i < length lines"
      and "\<forall>j<i. \<exists>r. getBranches_body parseIdentity j (lines ! j) = Inr r"
      and "pieces_of i (lines ! i) =
             ref' # name' # upstream' # sha' # shortSha # a # c # symref # rest"
      and "symref \<noteq> []"
      and "parseIdentity (Some a) = Inr None \<or>
           (\<exists>x. parseIdentity (Some a) = Inr (Some x)) \<and> parseIdentity (Some c) = Inr None"
  shows "(\<exists>kind \<in> {''author'', ''committer''}.
            getBranches parseIdentity git repository refPrefixes =
              Inl (Error (''Couldn't parse '' @ kind @ '' identity for '' @
                          [CHR 0x27] @ shortSha @ [CHR 0x27]))) \<and>
         (\<forall>accepting x y.
            accepting (Some a) = Inr (Some x) \<and> accepting (Some c) = Inr (Some y) \<longrightarrow>
            getBranches_body accepting i (lines ! i) = (Inr None :: js_error + 'j Branch option))"
proof -
  let ?pieces = "pieces_of i (lines ! i)"
  have e5: "elemAt ?pieces 5 = Some a" and e6: "elemAt ?pieces 6 = Some c"
    and e4: "interpolate (elemAt ?pieces 4) = shortSha"
    unfolding assms(6) by (simp_all add: elemAt_def interpolate_def)
  have "parseIdentity (elemAt ?pieces 5) = Inr None \<or>
        (\<exists>x. parseIdentity (elemAt ?pieces 5) = Inr (Some x)) \<and>
        parseIdentity (elemAt ?pieces 6) = Inr None"
    using assms(8) unfolding e5 e6 .
  from getBranches_fields_unparsed [OF this] obtain kind where
    kind: "kind \<in> {''author'', ''committer''}"
    and fields: "getBranches_fields parseIdentity ?pieces =
             Inl (Error (''Couldn't parse '' @ kind @ '' identity for '' @
                         [CHR 0x27] @ interpolate (elemAt ?pieces 4) @ [CHR 0x27]))"
    by blast
  have body: "getBranches_body parseIdentity i (lines ! i) =
             Inl (Error (''Couldn't parse '' @ kind @ '' identity for '' @
                         [CHR 0x27] @ shortSha @ [CHR 0x27]))"
    using fields unfolding getBranches_body_def e4 .
  have thrown: "getBranches parseIdentity git repository refPrefixes =
               Inl (Error (''Couldn't parse '' @ kind @ '' identity for '' @
                           [CHR 0x27] @ shortSha @ [CHR 0x27]))"
    using assms(4,5) unfolding assms(3)
    by (rule getBranches_first_throw [OF assms(1,2) _ _ body [unfolded assms(3)]])
  have skipped: "getBranches_body accepting i (lines ! i) = Inr None"
    if "accepting (Some a) = Inr (Some x) \<and> accepting (Some c) = Inr (Some y)"
    for accepting :: "'j parseIdentity" and x y
    using that assms(7)
    by (simp add: getBranches_body_def getBranches_fields_def assms(6) elemAt_def Let_def)
  have ex: "\<exists>kind \<in> {''author'', ''committer''}.
            getBranches parseIdentity git repository refPrefixes =
              Inl (Error (''Couldn't parse '' @ kind @ '' identity for '' @
                          [CHR 0x27] @ shortSha @ [CHR 0x27]))"
    using kind thrown by blast
  have sk: "\<forall>(accepting :: 'j parseIdentity) x y.
            accepting (Some a) = Inr (Some x) \<and> accepting (Some c) = Inr (Some y) \<longrightarrow>
            getBranches_body accepting i (lines ! i) = Inr None"
    using skipped by blast
  from ex sk show ?thesis by (rule conjI)
qed

theorem identities_parsed_before_symref_witness:
  "(\<exists>kind \<in> {''author'', ''committer''}.
      getBranches stubIdentity (respond sample_unparsed) \<lparr>path = ''/repo''\<rparr> [] =
        Inl (Error (''Couldn't parse '' @ kind @ '' identity for '' @
                    [CHR 0x27] @ ''d4e'' @ [CHR 0x27]))) \<and>
   getBranches_body (\<lambda>v. Inr (Some ''anyone''))
       (Suc 0) (getBranches_lines sample_unparsed ! Suc 0)
     = (Inr None :: js_error + string Branch option)"
proof -
  have hi: "Suc 0 < length (getBranches_lines sample_unparsed)"
    by (simp add: sample_unparsed_lines)
  have earlier: "\<forall>j<Suc 0. \<exists>r. getBranches_body stubIdentity j
                    (getBranches_lines sample_unparsed ! j) = Inr r"
    using sample_unparsed_first by simp
  have sym: "''refs/remotes/origin/main'' \<noteq> []" by simp
  have h8: "stubIdentity (Some []) = Inr None \<or>
            (\<exists>x. stubIdentity (Some []) = Inr (Some x)) \<and> stubIdentity (Some ''Bob'') = Inr None"
    by (simp add: stubIdentity_def)
  note inst = identities_parsed_before_symref
            [OF sample_unparsed_request refl hi earlier sample_unparsed_pieces(2) sym h8]
  from inst have skip: "\<forall>(accepting :: string parseIdentity) x y.
      accepting (Some []) = Inr (Some x) \<and> accepting (Some ''Bob'') = Inr (Some y) \<longrightarrow>
      getBranches_body accepting (Suc 0) (getBranches_lines sample_unparsed ! Suc 0) = Inr None"
    by (rule conjunct2)
  have "getBranches_body (\<lambda>v. Inr (Some ''anyone''))
          (Suc 0) (getBranches_lines sample_unparsed ! Suc 0)
        = (Inr None :: js_error + string Branch option)"
    using skip [rule_format, of "\<lambda>v. Inr (Some ''anyone'')" "''anyone''" "''anyone''"] by simp
  with inst [THEN conjunct1] show ?thesis by (rule conjI)
qed

section \<open>The segment after the last separator\<close>

lemma lines_drop_tail:
  assumes "s = [] \<or> last s = d" and "d \<notin> set r"
  shows "butlast (js_split d (s @ r)) = butlast (js_split d s)"
proof (cases "s = []")
  case True
  then show ?thesis using assms(2) by (simp add: js_split_nosep)
next
  case False
  with assms(1) have s: "s = butlast s @ [d]"
    by (metis append_butlast_last_id)
  have "js_split d (butlast s @ d # r) = js_split d (butlast s) @ [r]"
    using assms(2) by (simp add: js_split_append js_split_nosep)
  moreover have "js_split d (butlast s @ d # []) = js_split d (butlast s) @ [[]]"
    by (simp add: js_split_append js_split_nosep)
  moreover have "s @ r = butlast s @ d # r" and "s = butlast s @ d # []"
    using s by (metis append_Cons append_Nil append_assoc, simp)
  ultimately show ?thesis by (metis butlast_snoc)
qed

lemma getBranches_respond:
  "getBranches parseIdentity (respond result) repository refPrefixes =
     (if gitError result = Some NotAGitRepository then Inr []
      else getBranches_loop parseIdentity 0 (getBranches_lines result) [])"
  using getBranches_of_lines [of "respond result" repository refPrefixes result parseIdentity]
  by (simp add: getBranches_def getBranches_request_def respond_def)

lemma differing_respond:
  "getBranchesDifferingFromUpstream (respond result) repository allBranches =
     (if gitError result = Some NotAGitRepository then Inr []
      else if differing_lines result = [] then Inr []
      else case eligibleBranchNames_of (differing_lines result) of
             Inl e \<Rightarrow> Inl e
           | Inr eligibleBranchNames \<Rightarrow>
               if eligibleBranchNames = {} then Inr []
               else Inr (filter (\<lambda>branch. Branch.type branch = Local \<and>
                                     Branch.name branch \<in> eligibleBranchNames) allBranches))"
  by (simp add: getBranchesDifferingFromUpstream_def differing_request_def respond_def Let_def)

text \<open>
  C10. Both operations drop the last segment of the split without looking at it:
  whatever follows the last sentinel (for \<open>getBranches\<close>) or the last newline (for
  \<open>getBranchesDifferingFromUpstream\<close>) in the response, or the whole response when it
  has no separator, changes nothing in what the operation returns.
\<close>

theorem unterminated_tail_dropped:
  "((s = [] \<or> last s = delimiterString) \<and> delimiterString \<notin> set r \<longrightarrow>
      getBranches parseIdentity (respond \<lparr>stdout = s @ r, gitError = g\<rparr>) repository refPrefixes =
      getBranches parseIdentity (respond \<lparr>stdout = s, gitError = g\<rparr>) repository refPrefixes)
   \<and>
   ((s' = [] \<or> last s' = LF) \<and> LF \<notin> set r' \<longrightarrow>
      getBranchesDifferingFromUpstream (respond \<lparr>stdout = s' @ r', gitError = g'\<rparr>)
        repository' allBranches =
      getBranchesDifferingFromUpstream (respond \<lparr>stdout = s', gitError = g'\<rparr>)
        repository' allBranches)"
proof (intro conjI impI)
  assume "(s = [] \<or> last s = delimiterString) \<and> delimiterString \<notin> set r"
  then have "getBranches_lines \<lparr>stdout = s @ r, gitError = g\<rparr>
             = getBranches_lines \<lparr>stdout = s, gitError = g\<rparr>"
    by (simp add: getBranches_lines_def lines_drop_tail)
  then show "getBranches parseIdentity (respond \<lparr>stdout = s @ r, gitError = g\<rparr>) repository refPrefixes =
      getBranches parseIdentity (respond \<lparr>stdout = s, gitError = g\<rparr>) repository refPrefixes"
    by (simp add: getBranches_respond)
next
  assume "(s' = [] \<or> last s' = LF) \<and> LF \<notin> set r'"
  then have "differing_lines \<lparr>stdout = s' @ r', gitError = g'\<rparr>
             = differing_lines \<lparr>stdout = s', gitError = g'\<rparr>"
    by (simp add: differing_lines_def lines_drop_tail)
  then show "getBranchesDifferingFromUpstream (respond \<lparr>stdout = s' @ r', gitError = g'\<rparr>)
        repository' allBranches =
      getBranchesDifferingFromUpstream (respond \<lparr>stdout = s', gitError = g'\<rparr>)
        repository' allBranches"
    by (simp add: differing_respond)
qed

lemma sample_terminated_run:
  "getBranches stubIdentity (respond \<lparr>stdout = sample_terminated, gitError = None\<rparr>)
     \<lparr>path = ''/repo''\<rparr> [] =
   Inr [\<lparr>Branch.name = ''main'', upstream = Some ''origin/main'',
         tip = \<lparr>BranchTip.sha = ''a1b2c3'', author = ''Ann''\<rparr>, type = Local\<rparr>]"
  by (simp add: getBranches_respond getBranches_lines_def sample_terminated_def js_split_def
        NUL_def LF_def delimiterString_def getBranches_body_def pieces_of_def
        getBranches_fields_def elemAt_def stubIdentity_def startsWith_def Let_def)

lemma sample_both_terminated_run:
  "getBranches stubIdentity
     (respond \<lparr>stdout = sample_terminated @ sample_unterminated @ [delimiterString],
               gitError = None\<rparr>)
     \<lparr>path = ''/repo''\<rparr> [] =
   Inr [\<lparr>Branch.name = ''main'', upstream = Some ''origin/main'',
         tip = \<lparr>BranchTip.sha = ''a1b2c3'', author = ''Ann''\<rparr>, type = Local\<rparr>,
        \<lparr>Branch.name = ''dev'', upstream = None,
         tip = \<lparr>BranchTip.sha = ''d4e5f6'', author = ''Ann''\<rparr>, type = Local\<rparr>]"
  by (simp add: getBranches_respond getBranches_lines_def sample_terminated_def
        sample_unterminated_def js_split_def
        NUL_def LF_def delimiterString_def getBranches_body_def pieces_of_def
        getBranches_fields_def elemAt_def stubIdentity_def startsWith_def Let_def)

lemma sample_feat_run:
  "getBranchesDifferingFromUpstream (respond \<lparr>stdout = sample_feat_line, gitError = None\<rparr>)
     \<lparr>path = ''/repo''\<rparr> [sample_feat] = Inr []"
  by (simp add: differing_respond differing_lines_def sample_feat_line_def written_line_def
        js_split_def NUL_def LF_def eligibleBranchNames_of_def collect_body_def elemAt_def
        startsWith_def Let_def)

lemma sample_feat_remote_run:
  "getBranchesDifferingFromUpstream
     (respond \<lparr>stdout = sample_feat_line @ sample_remote_unterminated @ [LF], gitError = None\<rparr>)
     \<lparr>path = ''/repo''\<rparr> [sample_feat] = Inr [sample_feat]"
  by (simp add: differing_respond differing_lines_def sample_feat_line_def written_line_def
        sample_remote_unterminated_def sample_feat_def
        js_split_def NUL_def LF_def eligibleBranchNames_of_def collect_body_def elemAt_def
        startsWith_def Let_def)

theorem unterminated_tail_dropped_witness:
  "getBranches stubIdentity
     (respond \<lparr>stdout = sample_terminated @ sample_unterminated, gitError = None\<rparr>)
     \<lparr>path = ''/repo''\<rparr> [] =
   Inr [\<lparr>Branch.name = ''main'', upstream = Some ''origin/main'',
         tip = \<lparr>BranchTip.sha = ''a1b2c3'', author = ''Ann''\<rparr>, type = Local\<rparr>]
   \<and>
   getBranches stubIdentity
     (respond \<lparr>stdout = sample_terminated @ sample_unterminated @ [delimiterString],
               gitError = None\<rparr>)
     \<lparr>path = ''/repo''\<rparr> [] =
   Inr [\<lparr>Branch.name = ''main'', upstream = Some ''origin/main'',
         tip = \<lparr>BranchTip.sha = ''a1b2c3'', author = ''Ann''\<rparr>, type = Local\<rparr>,
        \<lparr>Branch.name = ''dev'', upstream = None,
         tip = \<lparr>BranchTip.sha = ''d4e5f6'', author = ''Ann''\<rparr>, type = Local\<rparr>]
   \<and>
   getBranchesDifferingFromUpstream
     (respond \<lparr>stdout = sample_feat_line @ sample_remote_unterminated, gitError = None\<rparr>)
     \<lparr>path = ''/repo''\<rparr> [sample_feat] = Inr []
   \<and>
   getBranchesDifferingFromUpstream
     (respond \<lparr>stdout = sample_feat_line @ sample_remote_unterminated @ [LF], gitError = None\<rparr>)
     \<lparr>path = ''/repo''\<rparr> [sample_feat] = Inr [sample_feat]"
proof -
  have a: "(sample_terminated = [] \<or> last sample_terminated = delimiterString) \<and>
           delimiterString \<notin> set sample_unterminated"
    by (simp add: sample_terminated_def sample_unterminated_def NUL_def LF_def
          delimiterString_def)
  have b: "(sample_feat_line = [] \<or> last sample_feat_line = LF) \<and>
           LF \<notin> set sample_remote_unterminated"
    by (simp add: sample_feat_line_def written_line_def sample_remote_unterminated_def
          NUL_def LF_def)
  show ?thesis
    using unterminated_tail_dropped
            [of sample_terminated sample_unterminated stubIdentity None "\<lparr>path = ''/repo''\<rparr>" "[]"
                sample_feat_line sample_remote_unterminated None "\<lparr>path = ''/repo''\<rparr>"
                "[sample_feat]"]
          a b
    by (simp add: sample_terminated_run sample_feat_run sample_both_terminated_run
          sample_feat_remote_run)
qed

section \<open>The pieces of a record\<close>

lemma join_snoc: "join sep (vals @ [z]) = concat (map (\<lambda>v. v @ sep) vals) @ z"
proof (induction vals)
  case Nil
  show ?case by simp
next
  case (Cons v vals)
  then show ?case by (cases vals) simp_all
qed

lemma written_record_eq:
  "written_record vals = concat (map (\<lambda>v. v @ [NUL]) vals) @ [delimiterString, LF]"
  by (simp add: written_record_def join_snoc)

lemma js_split_records:
  "d \<noteq> n \<Longrightarrow> d \<notin> set pre \<Longrightarrow> \<forall>b \<in> set bs. d \<notin> set b \<Longrightarrow>
   js_split d (pre @ concat (map (\<lambda>b. b @ [d, n]) bs)) =
     (if bs = [] then [pre] else (pre @ hd bs) # map (\<lambda>b. n # b) (tl bs) @ [[n]])"
proof (induction bs arbitrary: pre)
  case Nil
  then show ?case by (simp add: js_split_nosep)
next
  case (Cons b bs)
  have "js_split d ((pre @ b) @ d # ([n] @ concat (map (\<lambda>b. b @ [d, n]) bs)))
        = js_split d (pre @ b) @ js_split d ([n] @ concat (map (\<lambda>b. b @ [d, n]) bs))"
    by (rule js_split_append)
  moreover have "js_split d (pre @ b) = [pre @ b]"
    using Cons.prems by (simp add: js_split_nosep)
  moreover have "js_split d ([n] @ concat (map (\<lambda>b. b @ [d, n]) bs))
        = (if bs = [] then [[n]] else ([n] @ hd bs) # map (\<lambda>b. n # b) (tl bs) @ [[n]])"
    using Cons.IH [of "[n]"] Cons.prems by simp
  ultimately show ?case by (cases bs) simp_all
qed

lemma getBranches_fields_take:
  "getBranches_fields parseIdentity pieces = getBranches_fields parseIdentity (take 8 pieces)"
proof (cases "8 \<le> length pieces")
  case True
  from eight_pieces [OF this] obtain p0 p1 p2 p3 p4 p5 p6 p7 rest
    where "pieces = p0 # p1 # p2 # p3 # p4 # p5 # p6 # p7 # rest" by blast
  then show ?thesis
    by (simp add: getBranches_fields_def elemAt_def cong: sum.case_cong option.case_cong)
next
  case False
  then show ?thesis by simp
qed

lemma written_lines:
  assumes "stdout result = concat (map written_record records)"
      and "\<forall>vals \<in> set records. \<forall>v \<in> set vals. NUL \<notin> set v \<and> delimiterString \<notin> set v"
      and "i < length records"
  shows "length (getBranches_lines result) = length records"
    and "pieces_of i (getBranches_lines result ! i) = records ! i @ [[]]"
proof -
  let ?body = "\<lambda>vals. concat (map (\<lambda>v. v @ [NUL]) vals)"
  have ne: "delimiterString \<noteq> LF" "delimiterString \<noteq> NUL"
    by (simp_all add: delimiterString_def LF_def NUL_def)
  have free: "\<forall>b \<in> set (map ?body records). delimiterString \<notin> set b"
    using assms(2) ne(2) by auto
  have fn: "written_record = (\<lambda>vals. ?body vals @ [delimiterString, LF])"
    by (rule ext) (rule written_record_eq)
  have "stdout result = [] @ concat (map (\<lambda>b. b @ [delimiterString, LF]) (map ?body records))"
    unfolding assms(1) fn by (simp add: comp_def)
  then have split: "js_split delimiterString (stdout result) =
      (if map ?body records = [] then [[]]
       else ([] @ hd (map ?body records)) # map (\<lambda>b. LF # b) (tl (map ?body records)) @ [[LF]])"
    using js_split_records [OF ne(1) _ free, of "[]"] by simp
  from assms(3) obtain r rs where rs: "records = r # rs" by (cases records) auto
  have lines: "getBranches_lines result = ?body r # map (\<lambda>vals. LF # ?body vals) rs"
    unfolding getBranches_lines_def split rs by (simp add: butlast_append comp_def)
  show "length (getBranches_lines result) = length records"
    by (simp add: lines rs)
  have "pieces_of i (getBranches_lines result ! i) = js_split NUL (?body (records ! i))"
    using assms(3) unfolding lines rs by (cases i) (simp_all add: pieces_of_def)
  also have "\<dots> = records ! i @ [[]]"
    using assms(2,3) by (intro js_split_terminated) auto
  finally show "pieces_of i (getBranches_lines result ! i) = records ! i @ [[]]" .
qed

text \<open>
  C7 (amended). A cleaned record splits into one more piece than it has field
  separators, and the loop body reads the first eight pieces only. For a response
  written under the format, with eight values per record that contain neither the
  field separator nor the sentinel, there are as many lines as records and every
  line splits into nine pieces: the eight values in order, then an empty one.
\<close>

theorem record_pieces:
  "length (pieces_of ix line) = Suc (count_list (if ix > 0 then drop 1 line else line) NUL) \<and>
   getBranches_body parseIdentity ix line =
     getBranches_fields parseIdentity (take 8 (pieces_of ix line)) \<and>
   (stdout result = concat (map written_record records) \<and>
    (\<forall>vals \<in> set records.
       length vals = 8 \<and> (\<forall>v \<in> set vals. NUL \<notin> set v \<and> delimiterString \<notin> set v)) \<and>
    i < length records \<longrightarrow>
      length (getBranches_lines result) = length records \<and>
      pieces_of i (getBranches_lines result ! i) = records ! i @ [[]] \<and>
      length (pieces_of i (getBranches_lines result ! i)) = 9 \<and>
      getBranches_body parseIdentity i (getBranches_lines result ! i) =
        getBranches_fields parseIdentity (records ! i))"
proof (intro conjI impI)
  show "length (pieces_of ix line) = Suc (count_list (if ix > 0 then drop 1 line else line) NUL)"
    by (simp add: pieces_of_def length_js_split)
  show "getBranches_body parseIdentity ix line =
          getBranches_fields parseIdentity (take 8 (pieces_of ix line))"
    unfolding getBranches_body_def by (rule getBranches_fields_take)
next
  assume h: "stdout result = concat (map written_record records) \<and>
    (\<forall>vals \<in> set records.
       length vals = 8 \<and> (\<forall>v \<in> set vals. NUL \<notin> set v \<and> delimiterString \<notin> set v)) \<and>
    i < length records"
  then have a: "stdout result = concat (map written_record records)"
    and b: "\<forall>vals \<in> set records. \<forall>v \<in> set vals. NUL \<notin> set v \<and> delimiterString \<notin> set v"
    and c: "i < length records" and len: "length (records ! i) = 8"
    by auto
  note w = written_lines [OF a b c]
  show "length (getBranches_lines result) = length records" by (rule w(1))
  show "pieces_of i (getBranches_lines result ! i) = records ! i @ [[]]" by (rule w(2))
  show "length (pieces_of i (getBranches_lines result ! i)) = 9"
    unfolding w(2) using len by simp
  have "getBranches_body parseIdentity i (getBranches_lines result ! i) =
          getBranches_fields parseIdentity (take 8 (records ! i @ [[]]))"
    unfolding getBranches_body_def w(2) by (rule getBranches_fields_take)
  then show "getBranches_body parseIdentity i (getBranches_lines result ! i) =
        getBranches_fields parseIdentity (records ! i)"
    using len by simp
qed

theorem record_pieces_witness:
  "length (getBranches_lines sample_listing) = 2 \<and>
   pieces_of (Suc 0) (getBranches_lines sample_listing ! Suc 0) =
     [''refs/remotes/origin/HEAD'', ''origin/HEAD'', '''', ''d4e5f6'', ''d4e'',
      ''Ann'', ''Bob'', ''refs/remotes/origin/main'', ''''] \<and>
   length (pieces_of (Suc 0) (getBranches_lines sample_listing ! Suc 0)) = 9 \<and>
   getBranches_body stubIdentity (Suc 0) (getBranches_lines sample_listing ! Suc 0) =
     getBranches_fields stubIdentity
       [''refs/remotes/origin/HEAD'', ''origin/HEAD'', '''', ''d4e5f6'', ''d4e'',
        ''Ann'', ''Bob'', ''refs/remotes/origin/main'']"
proof -
  let ?records =
    "[[''refs/heads/main'', ''main'', ''origin/main'', ''a1b2c3'', ''a1b'', ''Ann'', ''Bob'', ''''],
      [''refs/remotes/origin/HEAD'', ''origin/HEAD'', '''', ''d4e5f6'', ''d4e'',
       ''Ann'', ''Bob'', ''refs/remotes/origin/main'']]"
  have h: "stdout sample_listing = concat (map written_record ?records) \<and>
    (\<forall>vals \<in> set ?records.
       length vals = 8 \<and> (\<forall>v \<in> set vals. NUL \<notin> set v \<and> delimiterString \<notin> set v)) \<and>
    Suc 0 < length ?records"
    by (simp add: sample_listing_def NUL_def delimiterString_def)
  from record_pieces [of "Suc 0" "getBranches_lines sample_listing ! Suc 0" stubIdentity
                         sample_listing ?records "Suc 0"] h
  show ?thesis by simp
qed

text \<open>
  C7 as stated fails on a response written under the format: the first record of the
  sample listing splits into nine pieces, not eight.
\<close>

theorem record_pieces_counterexample:
  "length (pieces_of 0 (getBranches_lines sample_listing ! 0)) = 9 \<and>
   length (pieces_of 0 (getBranches_lines sample_listing ! 0)) \<noteq> 8"
  by (simp add: sample_listing_pieces)

section \<open>The two loops of getBranchesDifferingFromUpstream\<close>

lemma compare_loop_names:
  "compare_loop localBranches remoteBranchShas names =
     names \<union> {localBranch.name b | b. b \<in> set localBranches \<and>
                 (\<exists>s. remoteBranchShas (localBranch.upstream b) = Some s \<and>
                      s \<noteq> localBranch.sha b)}"
proof (induction localBranches arbitrary: names)
  case Nil
  show ?case by simp
next
  case (Cons b rest)
  show ?case
    unfolding compare_loop.simps Let_def Cons.IH by auto
qed

lemma differing_of_lines:
  assumes "differing_request git repository = Inr result"
  shows "getBranchesDifferingFromUpstream git repository allBranches =
     (if gitError result = Some NotAGitRepository then Inr []
      else case eligibleBranchNames_of (differing_lines result) of
             Inl e \<Rightarrow> Inl e
           | Inr eligibleBranchNames \<Rightarrow>
               if eligibleBranchNames = {} then Inr []
               else Inr (filter (\<lambda>branch. Branch.type branch = Local \<and>
                                     Branch.name branch \<in> eligibleBranchNames) allBranches))"
proof (cases "differing_lines result = []")
  case True
  then show ?thesis
    using assms by (simp add: getBranchesDifferingFromUpstream_def eligibleBranchNames_of_def)
next
  case False
  then show ?thesis
    using assms by (simp add: getBranchesDifferingFromUpstream_def)
qed

text \<open>
  C3. Once the first loop has produced the local candidates and the index of remote
  SHAs, the second loop throws nothing, and a name is in \<open>eligibleBranchNames\<close>
  exactly when a candidate of that name has its upstream ref path in the index with
  a SHA other than its own. A name all of whose candidates have an upstream ref path
  missing from the index is not in the set, and the call still returns a list.
\<close>

theorem divergent_names:
  assumes "differing_request git repository = Inr result"
      and "collect_loop (differing_lines result) ([], Map.empty)
             = Inr (localBranches, remoteBranchShas)"
  shows "\<exists>names. eligibleBranchNames_of (differing_lines result) = Inr names \<and>
           (\<forall>n. n \<in> names \<longleftrightarrow>
                (\<exists>b \<in> set localBranches. localBranch.name b = n \<and>
                   (\<exists>s. remoteBranchShas (localBranch.upstream b) = Some s \<and>
                        s \<noteq> localBranch.sha b))) \<and>
           (\<forall>n. (\<forall>b \<in> set localBranches. localBranch.name b = n \<longrightarrow>
                      remoteBranchShas (localBranch.upstream b) = None) \<longrightarrow> n \<notin> names) \<and>
           (\<exists>bs. getBranchesDifferingFromUpstream git repository allBranches = Inr bs)"
proof -
  let ?names = "compare_loop localBranches remoteBranchShas {}"
  have names: "eligibleBranchNames_of (differing_lines result) = Inr ?names"
    using assms(2) by (simp add: eligibleBranchNames_of_def)
  have iff: "n \<in> ?names \<longleftrightarrow>
                (\<exists>b \<in> set localBranches. localBranch.name b = n \<and>
                   (\<exists>s. remoteBranchShas (localBranch.upstream b) = Some s \<and>
                        s \<noteq> localBranch.sha b))" for n
    unfolding compare_loop_names by auto
  have missing: "n \<notin> ?names"
    if "\<forall>b \<in> set localBranches. localBranch.name b = n \<longrightarrow>
           remoteBranchShas (localBranch.upstream b) = None" for n
    using that unfolding iff by auto
  have returns: "\<exists>bs. getBranchesDifferingFromUpstream git repository allBranches = Inr bs"
    unfolding differing_of_lines [OF assms(1)] names by simp
  from names iff missing returns show ?thesis by blast
qed

text \<open>
  C4. \<open>getBranchesDifferingFromUpstream\<close> throws only what the request or the
  first loop throws; in every other case it returns the caller's list filtered to
  the branches of type \<open>Local\<close> whose name is in \<open>eligibleBranchNames\<close> (the empty
  list for a not-a-repository result). Whatever list it returns is that filter for
  the set of divergent names: its elements are the caller's own values (whatever
  further fields they carry), in the caller's order.
\<close>

theorem result_is_filter_of_known:
  "getBranchesDifferingFromUpstream git repository allBranches =
     (case differing_request git repository of
        Inl e \<Rightarrow> Inl e
      | Inr result \<Rightarrow>
          if gitError result = Some NotAGitRepository then Inr []
          else (case eligibleBranchNames_of (differing_lines result) of
                  Inl e \<Rightarrow> Inl e
                | Inr eligibleBranchNames \<Rightarrow>
                    Inr (filter (\<lambda>branch. Branch.type branch = Local \<and>
                                          Branch.name branch \<in> eligibleBranchNames)
                           allBranches)))
   \<and>
   (\<forall>bs. getBranchesDifferingFromUpstream git repository allBranches = Inr bs \<longrightarrow>
      bs = filter (\<lambda>branch. Branch.type branch = Local \<and>
                            Branch.name branch \<in> divergentNames git repository) allBranches \<and>
      subseq bs allBranches \<and> set bs \<subseteq> set allBranches)"
proof (intro conjI allI impI)
  show "getBranchesDifferingFromUpstream git repository allBranches =
     (case differing_request git repository of
        Inl e \<Rightarrow> Inl e
      | Inr result \<Rightarrow>
          if gitError result = Some NotAGitRepository then Inr []
          else (case eligibleBranchNames_of (differing_lines result) of
                  Inl e \<Rightarrow> Inl e
                | Inr eligibleBranchNames \<Rightarrow>
                    Inr (filter (\<lambda>branch. Branch.type branch = Local \<and>
                                          Branch.name branch \<in> eligibleBranchNames)
                           allBranches)))"
  proof (cases "differing_request git repository")
    case (Inl e)
    then show ?thesis by (simp add: getBranchesDifferingFromUpstream_def)
  next
    case (Inr result)
    show ?thesis
      unfolding differing_of_lines [OF Inr] Inr
      by (simp split: sum.splits)
  qed
next
  fix bs
  assume ret: "getBranchesDifferingFromUpstream git repository allBranches = Inr bs"
  have eq: "bs = filter (\<lambda>branch. Branch.type branch = Local \<and>
                               Branch.name branch \<in> divergentNames git repository) allBranches"
  proof (cases "differing_request git repository")
    case (Inl e)
    with ret show ?thesis by (simp add: getBranchesDifferingFromUpstream_def)
  next
    case (Inr result)
    show ?thesis
      using ret unfolding differing_of_lines [OF Inr] divergentNames_def Inr
      by (auto split: if_splits sum.splits)
  qed
  show "bs = filter (\<lambda>branch. Branch.type branch = Local \<and>
                               Branch.name branch \<in> divergentNames git repository) allBranches"
    by (rule eq)
  show "subseq bs allBranches" unfolding eq by simp
  show "set bs \<subseteq> set allBranches" unfolding eq by simp
qed

lemma sample_differing_request:
  "differing_request (respond sample_differing) \<lparr>path = ''/repo''\<rparr> = Inr sample_differing"
  by (simp add: differing_request_def respond_def)

lemma sample_differing_gitError: "gitError sample_differing = None"
  by (simp add: sample_differing_def)

lemma sample_differing_collect:
  "collect_loop (differing_lines sample_differing) ([], Map.empty) =
     Inr ([\<lparr>localBranch.name = ''feat'', ref = ''refs/heads/feat'', sha = ''a1'',
             upstream = ''refs/remotes/origin/feat''\<rparr>,
           \<lparr>localBranch.name = ''gone'', ref = ''refs/heads/gone'', sha = ''c3'',
             upstream = ''refs/remotes/origin/gone''\<rparr>,
           \<lparr>localBranch.name = ''same'', ref = ''refs/heads/same'', sha = ''d4'',
             upstream = ''refs/remotes/origin/same''\<rparr>],
          [''refs/remotes/origin/feat'' \<mapsto> ''b2'', ''refs/remotes/origin/same'' \<mapsto> ''d4''])"
  by (simp add: differing_lines_def sample_differing_def written_line_def js_split_def
        NUL_def LF_def collect_body_def elemAt_def startsWith_def Let_def)

theorem divergent_names_witness:
  "\<exists>names. eligibleBranchNames_of (differing_lines sample_differing) = Inr names \<and>
     ''feat'' \<in> names \<and> ''gone'' \<notin> names \<and> ''same'' \<notin> names \<and>
     (\<exists>bs. getBranchesDifferingFromUpstream (respond sample_differing) \<lparr>path = ''/repo''\<rparr>
              sample_known = Inr bs)"
proof -
  from divergent_names [OF sample_differing_request sample_differing_collect, of sample_known]
  obtain names where
    names: "eligibleBranchNames_of (differing_lines sample_differing) = Inr names"
    and iff: "\<And>n. n \<in> names \<longleftrightarrow>
      (\<exists>b \<in> set [\<lparr>localBranch.name = ''feat'', ref = ''refs/heads/feat'', sha = ''a1'',
             upstream = ''refs/remotes/origin/feat''\<rparr>,
           \<lparr>localBranch.name = ''gone'', ref = ''refs/heads/gone'', sha = ''c3'',
             upstream = ''refs/remotes/origin/gone''\<rparr>,
           \<lparr>localBranch.name = ''same'', ref = ''refs/heads/same'', sha = ''d4'',
             upstream = ''refs/remotes/origin/same''\<rparr>].
         localBranch.name b = n \<and>
         (\<exists>s. [''refs/remotes/origin/feat'' \<mapsto> ''b2'', ''refs/remotes/origin/same'' \<mapsto> ''d4'']
                 (localBranch.upstream b) = Some s \<and> s \<noteq> localBranch.sha b))"
    and returns: "\<exists>bs. getBranchesDifferingFromUpstream (respond sample_differing)
                        \<lparr>path = ''/repo''\<rparr> sample_known = Inr bs"
    by blast
  have "''feat'' \<in> names" unfolding iff by simp
  moreover have "''gone'' \<notin> names" unfolding iff by simp
  moreover have "''same'' \<notin> names" unfolding iff by simp
  ultimately show ?thesis using names returns by blast
qed

lemma sample_differing_names:
  "divergentNames (respond sample_differing) \<lparr>path = ''/repo''\<rparr> = {''feat''}"
  by (simp add: divergentNames_def sample_differing_request eligibleBranchNames_of_def
        sample_differing_collect sample_differing_gitError)

theorem result_is_filter_of_known_witness:
  "getBranchesDifferingFromUpstream (respond sample_differing) \<lparr>path = ''/repo''\<rparr> sample_known
     = Inr [sample_feat] \<and>
   [sample_feat] = filter (\<lambda>branch. Branch.type branch = Local \<and> Branch.name branch \<in> {''feat''})
                     sample_known \<and>
   subseq [sample_feat] sample_known \<and> set [sample_feat] \<subseteq> set sample_known"
proof -
  note inst = result_is_filter_of_known
               [of "respond sample_differing" "\<lparr>path = ''/repo''\<rparr>" sample_known]
  have names: "eligibleBranchNames_of (differing_lines sample_differing) = Inr {''feat''}"
    by (simp add: eligibleBranchNames_of_def sample_differing_collect)
  have flt: "filter (\<lambda>branch. Branch.type branch = Local \<and> Branch.name branch \<in> {''feat''})
               sample_known = [sample_feat]"
    by (simp add: sample_known_def sample_feat_def)
  have run: "getBranchesDifferingFromUpstream (respond sample_differing) \<lparr>path = ''/repo''\<rparr>
               sample_known = Inr [sample_feat]"
    using inst [THEN conjunct1]
    by (simp add: sample_differing_request sample_differing_gitError names flt [simplified])
  from inst [THEN conjunct2, rule_format, OF run] run
  show ?thesis unfolding sample_differing_names by simp
qed

section \<open>Records the first loop skips\<close>

lemma six_pieces:
  "elemAt ps 5 = Some h \<Longrightarrow>
   \<exists>p0 p1 p2 p3 p4 rest. ps = p0 # p1 # p2 # p3 # p4 # h # rest"
  by (auto simp: elemAt_def Suc_le_length_iff less_eq_Suc_le eval_nat_numeral split: if_splits)

lemma collect_body_skips:
  assumes "elemAt (js_split NUL line) 5 = Some ''*'' \<or>
           (\<exists>ref' name' sha' symref rest.
              js_split NUL line = ref' # name' # sha' # [] # symref # rest \<and>
              startsWith ref' ''refs/head'')"
  shows "collect_body line st = Inr st"
  using assms
proof (elim disjE exE conjE)
  assume "elemAt (js_split NUL line) 5 = Some ''*''"
  from six_pieces [OF this] obtain p0 p1 p2 p3 p4 rest
    where "js_split NUL line = p0 # p1 # p2 # p3 # p4 # ''*'' # rest" by blast
  then show ?thesis
    by (cases st) (simp add: collect_body_def elemAt_def)
next
  fix ref' name' sha' symref rest
  assume "js_split NUL line = ref' # name' # sha' # [] # symref # rest"
     and "startsWith ref' ''refs/head''"
  then show ?thesis
    by (cases st) (simp add: collect_body_def Let_def)
qed

lemma collect_loop_skip:
  assumes "\<forall>st. collect_body line st = Inr st"
  shows "collect_loop (xs @ line # ys) st = collect_loop (xs @ ys) st"
proof (induction xs arbitrary: st)
  case Nil
  from assms have "collect_body line st = Inr st" ..
  then show ?case by simp
next
  case (Cons x xs)
  then show ?case by (simp split: sum.splits)
qed

text \<open>
  C6. A record marked as the current checkout, and a record whose ref path passes
  the local test (as every path under \<open>refs/heads\<close> does) with an empty upstream
  field, leave both \<open>localBranches\<close> and \<open>remoteBranchShas\<close> as they were; the call
  returns what it returns on the response without that record, whatever the SHAs.
\<close>

theorem skipped_records_do_not_contribute:
  assumes "differing_request git repository = Inr result"
      and "differing_lines result = xs @ line # ys"
      and "differing_request git' repository' = Inr result'"
      and "differing_lines result' = xs @ ys"
      and "gitError result' = gitError result"
      and "elemAt (js_split NUL line) 5 = Some ''*'' \<or>
           (\<exists>ref' name' sha' symref rest.
              js_split NUL line = ref' # name' # sha' # [] # symref # rest \<and>
              startsWith ref' ''refs/head'')"
  shows "(\<forall>st. collect_body line st = Inr st) \<and>
         getBranchesDifferingFromUpstream git repository allBranches =
         getBranchesDifferingFromUpstream git' repository' allBranches"
proof -
  have skip: "\<forall>st. collect_body line st = Inr st"
    using collect_body_skips [OF assms(6)] by blast
  have "eligibleBranchNames_of (differing_lines result)
        = eligibleBranchNames_of (differing_lines result')"
    unfolding assms(2,4) eligibleBranchNames_of_def collect_loop_skip [OF skip] ..
  then have "getBranchesDifferingFromUpstream git repository allBranches =
         getBranchesDifferingFromUpstream git' repository' allBranches"
    unfolding differing_of_lines [OF assms(1)] differing_of_lines [OF assms(3)] assms(5)
    by simp
  with skip show ?thesis by blast
qed

lemma sample_skipped_lines:
  "differing_lines \<lparr>stdout = sample_current @ [LF] @ sample_remote_line @ [LF], gitError = None\<rparr>
     = [] @ sample_current # [sample_remote_line]"
  "differing_lines \<lparr>stdout = sample_no_upstream @ [LF] @ sample_remote_line @ [LF], gitError = None\<rparr>
     = [] @ sample_no_upstream # [sample_remote_line]"
  "differing_lines \<lparr>stdout = sample_remote_line @ [LF], gitError = None\<rparr>
     = [] @ [sample_remote_line]"
  by (simp_all add: differing_lines_def sample_current_def sample_no_upstream_def
        sample_remote_line_def js_split_def NUL_def LF_def)

lemma sample_remote_only_run:
  "getBranchesDifferingFromUpstream
     (respond \<lparr>stdout = sample_remote_line @ [LF], gitError = None\<rparr>)
     \<lparr>path = ''/repo''\<rparr> [sample_feat] = Inr []"
  unfolding differing_respond sample_skipped_lines(3)
  by (simp add: eligibleBranchNames_of_def
        collect_body_def sample_remote_line_def js_split_def NUL_def elemAt_def
        startsWith_def Let_def)

theorem skipped_records_do_not_contribute_witness:
  "getBranchesDifferingFromUpstream
     (respond \<lparr>stdout = sample_current @ [LF] @ sample_remote_line @ [LF], gitError = None\<rparr>)
     \<lparr>path = ''/repo''\<rparr> [sample_feat] = Inr []
   \<and>
   getBranchesDifferingFromUpstream
     (respond \<lparr>stdout = sample_no_upstream @ [LF] @ sample_remote_line @ [LF], gitError = None\<rparr>)
     \<lparr>path = ''/repo''\<rparr> [sample_feat] = Inr []
   \<and>
   collect_body sample_current ([], Map.empty) = Inr ([], Map.empty)
   \<and>
   collect_body sample_no_upstream ([], Map.empty) = Inr ([], Map.empty)"
proof -
  let ?current = "\<lparr>stdout = sample_current @ [LF] @ sample_remote_line @ [LF], gitError = None\<rparr>"
  let ?no_upstream =
    "\<lparr>stdout = sample_no_upstream @ [LF] @ sample_remote_line @ [LF], gitError = None\<rparr>"
  let ?without = "\<lparr>stdout = sample_remote_line @ [LF], gitError = None\<rparr>"
  let ?repo = "\<lparr>path = ''/repo''\<rparr>"
  have req: "differing_request (respond r) ?repo = Inr r" for r
    by (simp add: differing_request_def respond_def)
  have err: "gitError ?without = gitError ?current" "gitError ?without = gitError ?no_upstream"
    by simp_all
  have marked: "elemAt (js_split NUL sample_current) 5 = Some ''*'' \<or>
           (\<exists>ref' name' sha' symref rest.
              js_split NUL sample_current = ref' # name' # sha' # [] # symref # rest \<and>
              startsWith ref' ''refs/head'')"
    by (simp add: sample_current_def js_split_def NUL_def elemAt_def)
  have bare: "elemAt (js_split NUL sample_no_upstream) 5 = Some ''*'' \<or>
           (\<exists>ref' name' sha' symref rest.
              js_split NUL sample_no_upstream = ref' # name' # sha' # [] # symref # rest \<and>
              startsWith ref' ''refs/head'')"
    by (simp add: sample_no_upstream_def js_split_def NUL_def elemAt_def startsWith_def)
  note a = skipped_records_do_not_contribute
             [OF req sample_skipped_lines(1) req sample_skipped_lines(3) err(1) marked,
              of "[sample_feat]"]
  note b = skipped_records_do_not_contribute
             [OF req sample_skipped_lines(2) req sample_skipped_lines(3) err(2) bare,
              of "[sample_feat]"]
  from a b show ?thesis by (simp add: sample_remote_only_run)
qed

section \<open>The test for a local ref\<close>

lemma getBranches_body_type:
  assumes "getBranches_body parseIdentity ix line = Inr (Some b)"
  shows "Branch.type b =
           (if startsWith (hd (pieces_of ix line)) ''refs/head'' then Local else Remote)"
proof -
  have "8 \<le> length (pieces_of ix line)"
  proof (rule ccontr)
    assume "\<not> 8 \<le> length (pieces_of ix line)"
    then have "(case pieces_of ix line of
                  r # n # u # s # _ # _ # _ # y # _ \<Rightarrow> f r n u s y
                | _ \<Rightarrow> Inl TypeError) = Inl TypeError" for f :: "string \<Rightarrow> string \<Rightarrow> string \<Rightarrow> string \<Rightarrow> string \<Rightarrow> js_error + 'a Branch option"
      by (auto split: list.splits)
    with assms show False
      by (auto simp: getBranches_body_def getBranches_fields_def Let_def
               split: sum.splits option.splits)
  qed
  from eight_pieces [OF this] obtain p0 p1 p2 p3 p4 p5 p6 p7 rest
    where "pieces_of ix line = p0 # p1 # p2 # p3 # p4 # p5 # p6 # p7 # rest" by blast
  with assms show ?thesis
    by (auto simp: getBranches_body_def getBranches_fields_def Let_def
             split: sum.splits option.splits if_splits)
qed

lemma collect_body_partition:
  assumes "js_split NUL line = ref' # name' # sha' # upstream' # symref # rest"
      and "symref = []" and "elemAt rest 0 \<noteq> Some ''*''"
  shows "collect_body line (localBranches, remoteBranchShas) =
           (if startsWith ref' ''refs/head''
            then (if upstream' = [] then Inr (localBranches, remoteBranchShas)
                  else Inr (localBranches @
                              [\<lparr>localBranch.name = name', ref = ref', sha = sha',
                                upstream = upstream'\<rparr>], remoteBranchShas))
            else Inr (localBranches, remoteBranchShas(ref' \<mapsto> sha')))"
  using assms by (simp add: collect_body_def Let_def)

lemma local_namespaces_agree:
  "startsWith r ''refs/heads'' \<Longrightarrow> startsWith r ''refs/head''"
  "startsWith r ''refs/remotes'' \<Longrightarrow> \<not> startsWith r ''refs/head''"
  by (auto simp: startsWith_def prefix_def)

text \<open>
  C1. The code tests \<open>ref.startsWith('refs/head')\<close>, not the local-heads namespace
  \<open>refs/heads\<close> that it requests by default. Called with the prefix \<open>refs/headless\<close>
  on a repository that has the ref \<open>refs/headless/tmp\<close>, \<open>getBranches\<close> returns that
  ref as a branch of type \<open>Local\<close>, although its path does not begin with
  \<open>refs/heads\<close>.
\<close>

theorem local_outside_refs_heads:
  "getBranches stubIdentity (respond sample_other_namespace) \<lparr>path = ''/repo''\<rparr>
     [''refs/headless''] =
     Inr [\<lparr>Branch.name = ''headless/tmp'', upstream = None,
           tip = \<lparr>BranchTip.sha = ''e5f6a7'', author = ''Ann''\<rparr>, type = Local\<rparr>] \<and>
   \<not> startsWith ''refs/headless/tmp'' ''refs/heads''"
  by (simp add: getBranches_respond getBranches_lines_def sample_other_namespace_def
        written_record_def js_split_def
        NUL_def LF_def delimiterString_def getBranches_body_def pieces_of_def
        getBranches_fields_def elemAt_def stubIdentity_def startsWith_def Let_def)

end
